theory Spec2Isabelle
  imports Main
begin

section \<open>Values, entities and responses\<close>

text \<open>
  A JSON property value, as far as the handlers look at one. Numbers are the integers:
  every id the servers assign is one, and JavaScript computes with integers exactly as
  long as they are safe integers.
\<close>

datatype jsval = JNum int | JStr string | JBool bool | JNull

text \<open>A parsed JSON object: its properties in insertion order.\<close>

type_synonym obj = "(string \<times> jsval) list"

text \<open>
  An element of the \<open>users\<close> array. Each one is either one of the two literals of the
  module or a request body pushed right after \<open>newUser.id\<close> was assigned a number, so
  its \<open>id\<close> is always a number; \<open>props\<close> holds the other properties.
\<close>

record user =
  user_id :: int
  props :: obj

text \<open>A row of the \<open>tasks\<close> table.\<close>

record task =
  task_id :: int
  title :: string
  description :: "string option"
  completed :: bool

text \<open>
  What \<open>res.json\<close> is given. \<open>Undefined\<close> is \<open>res.json(undefined)\<close>, which sends an
  empty body.
\<close>

datatype payload =
    UserList "user list"
  | UserJson user
  | TaskList "task list"
  | TaskJson task
  | Undefined
  | ErrorJson string
  | SuccessJson bool

record response =
  status :: nat
  body :: payload

text \<open>\<open>res.json(b)\<close> answers with status 200; \<open>res.status(c).json(b)\<close> with status c.\<close>

definition json :: "payload \<Rightarrow> response" where
  "json b = \<lparr>status = 200, body = b\<rparr>"

definition status_json :: "nat \<Rightarrow> payload \<Rightarrow> response" where
  "status_json c b = \<lparr>status = c, body = b\<rparr>"

datatype js_error = ReferenceError string

text \<open>
  What one run of a handler did: the responses it sent, the lines it wrote with
  \<open>console.error\<close>, and the exception it left uncaught, if any.
\<close>

record outcome =
  sent :: "response list"
  logged :: "string list"
  thrown :: "js_error option"

definition silent :: outcome where
  "silent = \<lparr>sent = [], logged = [], thrown = None\<rparr>"

section \<open>Numbers and strings\<close>

text \<open>
  Strings are byte lists (UTF-8). \<open>digit_char\<close> is only ever given a digit below ten.
\<close>

definition digit_char :: "nat \<Rightarrow> char" where
  "digit_char d = ''0123456789'' ! d"

fun digits_of :: "nat \<Rightarrow> string" where
  "digits_of n = (if n < 10 then [digit_char n] else digits_of (n div 10) @ [digit_char (n mod 10)])"

declare digits_of.simps [simp del]

text \<open>
  The text JavaScript gives a number whose value is an integer. Below \<open>10^21\<close> in
  magnitude it is the plain decimal text. From \<open>10^21\<close> on it is the exponent notation:
  the first significant digit, a point and the further significant digits if there are
  any, then \<open>e+\<close> and the decimal exponent. An integer stands for the number nearest
  to it: the text is JavaScript's for every safe integer (\<open>Number.isSafeInteger\<close>, the
  range in which a number holds every integer exactly) and for every integer of at most
  15 significant digits, such as \<open>10^21\<close>.
\<close>

definition exponent_text :: "nat \<Rightarrow> string" where
  "exponent_text m =
     (let D = digits_of m;
          S = rev (dropWhile (\<lambda>c. c = CHR ''0'') (rev D))
      in (case S of
            [] \<Rightarrow> []
          | c # r \<Rightarrow> c # (if r = [] then [] else CHR ''.'' # r))
         @ ''e+'' @ digits_of (length D - 1))"

definition magnitude_text :: "nat \<Rightarrow> string" where
  "magnitude_text m = (if m < 10 ^ 21 then digits_of m else exponent_text m)"

definition Number_toString :: "int \<Rightarrow> string" where
  "Number_toString n =
     (if n < 0 then CHR ''-'' # magnitude_text (nat (- n)) else magnitude_text (nat n))"

definition isSafeInteger :: "int \<Rightarrow> bool" where
  "isSafeInteger n = (\<bar>n\<bar> \<le> 2 ^ 53 - 1)"

text \<open>
  \<open>parseInt(string)\<close> with no radix argument: leading white space is skipped, a sign is
  read, a \<open>0x\<close> or \<open>0X\<close> prefix selects radix 16 (radix 10 otherwise), and the longest
  run of digits of that radix is the value; whatever follows is ignored. With no digit
  the result is \<open>NaN\<close>, here \<open>None\<close>. The value here is the exact integer, which is
  what JavaScript returns as long as it is a safe integer; the white space skipped is
  the ASCII one.
\<close>

definition is_white :: "char \<Rightarrow> bool" where
  "is_white c = (c \<in> {CHR 0x09, CHR 0x0A, CHR 0x0B, CHR 0x0C, CHR 0x0D, CHR '' ''})"

definition digit_of :: "char \<Rightarrow> nat option" where
  "digit_of c =
     (let n = (of_char c :: nat)
      in if 48 \<le> n \<and> n \<le> 57 then Some (n - 48)
         else if 97 \<le> n \<and> n \<le> 122 then Some (n - 87)
         else if 65 \<le> n \<and> n \<le> 90 then Some (n - 55)
         else None)"

definition is_digit :: "nat \<Rightarrow> char \<Rightarrow> bool" where
  "is_digit R c = (case digit_of c of Some d \<Rightarrow> d < R | None \<Rightarrow> False)"

definition radix_value :: "nat \<Rightarrow> string \<Rightarrow> nat" where
  "radix_value R Z = fold (\<lambda>c acc. acc * R + (case digit_of c of Some d \<Rightarrow> d | None \<Rightarrow> 0)) Z 0"

definition parseInt :: "string \<Rightarrow> int option" where
  "parseInt inputString =
     (let S = dropWhile is_white inputString;
          (sign, S1) = (case S of
                          [] \<Rightarrow> (1::int, S)
                        | c # r \<Rightarrow> if c = CHR ''-'' then (- 1, r)
                                   else if c = CHR ''+'' then (1, r) else (1, S));
          (R, S2) = (if take 2 S1 = ''0x'' \<or> take 2 S1 = ''0X'' then (16::nat, drop 2 S1)
                     else (10, S1));
          Z = takeWhile (is_digit R) S2
      in if Z = [] then None else Some (sign * int (radix_value R Z)))"

section \<open>The in-memory users server\<close>

definition users_init :: "user list" where
  "users_init =
     [\<lparr>user_id = 1, props = [(''name'', JStr ''Mario Rossi''), (''email'', JStr ''mario@prova.com'')]\<rparr>,
      \<lparr>user_id = 2, props = [(''name'', JStr ''Giulia Bianchi''), (''email'', JStr ''giulia@prova.com'')]\<rparr>]"

text \<open>\<open>GET /api/users\<close>.\<close>

definition get_users :: "user list \<Rightarrow> user list \<times> outcome" where
  "get_users users = (users, silent\<lparr>sent := [json (UserList users)]\<rparr>)"

text \<open>
  \<open>users.length ? Math.max(...users.map(u => u.id)) + 1 : 1\<close>. The array is empty
  exactly when the list of ids is.
\<close>

definition Math_max :: "int \<Rightarrow> int list \<Rightarrow> int" where
  "Math_max x xs = fold max xs x"

definition next_id :: "user list \<Rightarrow> int" where
  "next_id users = (case map user_id users of [] \<Rightarrow> 1 | x # xs \<Rightarrow> Math_max x xs + 1)"

text \<open>
  \<open>POST /api/users\<close>. The body is the parsed JSON object; assigning \<open>newUser.id\<close>
  replaces an \<open>id\<close> property the client sent and leaves every other property alone.
\<close>

definition post_users :: "obj \<Rightarrow> user list \<Rightarrow> user list \<times> outcome" where
  "post_users req_body users =
     (let newUser = \<lparr>user_id = next_id users, props = filter (\<lambda>p. fst p \<noteq> ''id'') req_body\<rparr>
      in (users @ [newUser], silent\<lparr>sent := [json (UserJson newUser)]\<rparr>))"

text \<open>\<open>findIndex\<close> gives the first index whose element satisfies the test, or \<open>-1\<close>.\<close>

fun findIndex :: "('a \<Rightarrow> bool) \<Rightarrow> 'a list \<Rightarrow> int" where
  "findIndex P [] = - 1"
| "findIndex P (x # xs) =
     (if P x then 0 else (let i = findIndex P xs in if i = - 1 then - 1 else i + 1))"

text \<open>\<open>xs.splice(i, 1)\<close> leaves \<open>xs\<close> without its element at index i.\<close>

definition splice1 :: "nat \<Rightarrow> 'a list \<Rightarrow> 'a list" where
  "splice1 i xs = take i xs @ drop (Suc i) xs"

text \<open>
  The statements of a handler run in order until one throws. The names bound where
  the delete handler runs are those of the module and of the handler; no global of the
  runtime is called \<open>esle\<close> either. Evaluating a name that is not bound throws a
  \<open>ReferenceError\<close>.
\<close>

definition bound_names :: "string list" where
  "bound_names = [''express'', ''cors'', ''bodyParser'', ''app'', ''port'', ''users'',
                  ''req'', ''res'', ''id'', ''index'', ''deleted'']"

definition and_then ::
  "user list \<times> outcome \<Rightarrow> (user list \<times> outcome \<Rightarrow> user list \<times> outcome) \<Rightarrow> user list \<times> outcome" where
  "and_then s stmt = (if thrown (snd s) = None then stmt s else s)"

definition res_send :: "response \<Rightarrow> user list \<times> outcome \<Rightarrow> user list \<times> outcome" where
  "res_send r s = (fst s, (snd s)\<lparr>sent := sent (snd s) @ [r]\<rparr>)"

definition evaluate_name :: "string \<Rightarrow> user list \<times> outcome \<Rightarrow> user list \<times> outcome" where
  "evaluate_name x s =
     (if x \<in> set bound_names then s else (fst s, (snd s)\<lparr>thrown := Some (ReferenceError x)\<rparr>))"

text \<open>
  \<open>DELETE /api/users/:id\<close>. After the \<open>if\<close> statement the source reads
  \<^verbatim>\<open>esle\<close> on a line of its own, followed by a block: an expression statement that
  evaluates the name \<open>esle\<close>, then the block that answers 404.
\<close>

definition delete_users :: "string \<Rightarrow> user list \<Rightarrow> user list \<times> outcome" where
  "delete_users param users =
     (let id' = parseInt param;
          index = findIndex (\<lambda>user. Some (user_id user) = id') users;
          s0 = (users, silent);
          s1 = (if index \<noteq> - 1
                then res_send (json (UserJson (users ! nat index))) (splice1 (nat index) users, snd s0)
                else s0);
          s2 = and_then s1 (evaluate_name ''esle'');
          s3 = and_then s2 (res_send (status_json 404 (ErrorJson ''User non trovato'')))
      in s3)"

text \<open>The requests the users server handles, and a run of them from a given array.\<close>

datatype users_request = GetUsers | PostUser obj | DeleteUser string

fun users_handle :: "users_request \<Rightarrow> user list \<Rightarrow> user list \<times> outcome" where
  "users_handle GetUsers users = get_users users"
| "users_handle (PostUser b) users = post_users b users"
| "users_handle (DeleteUser p) users = delete_users p users"

fun users_run :: "users_request list \<Rightarrow> user list \<Rightarrow> user list \<times> outcome list" where
  "users_run [] users = (users, [])"
| "users_run (r # rs) users =
     (let (users1, out) = users_handle r users;
          (users2, outs) = users_run rs users1
      in (users2, out # outs))"

text \<open>The ids of the entities that the handlers of a run answered with, in order.\<close>

fun assigned_ids :: "outcome list \<Rightarrow> int list" where
  "assigned_ids [] = []"
| "assigned_ids (out # outs) =
     (case sent out of
        [r] \<Rightarrow> (case body r of UserJson u \<Rightarrow> user_id u # assigned_ids outs | _ \<Rightarrow> assigned_ids outs)
      | _ \<Rightarrow> assigned_ids outs)"

section \<open>The tasks server on MySQL\<close>

text \<open>
  The database: the rows of \<open>tasks\<close>, and for each query still to come whether the pool
  will reject it (\<open>True\<close>: the promise of \<open>db.query\<close> rejects, for a lost connection or
  a statement the server refuses). With no entry left the query is served.
\<close>

record database =
  tasks :: "task list"
  faults :: "bool list"

datatype db_error = QueryRejected

text \<open>The four statements of the module, with the value bound to \<open>?\<close>.\<close>

datatype statement =
    SelectAll
  | ToggleCompleted string
  | SelectById string
  | DeleteById string

text \<open>
  The handlers bind the path parameter, a string, to \<open>?\<close> and the server compares it
  with the integer column. That comparison is the database's, not this program's, and
  is a parameter \<open>same_id\<close> here. \<open>execute\<close> gives the table after the statement and
  the rows it returns.
\<close>

fun execute :: "(string \<Rightarrow> int \<Rightarrow> bool) \<Rightarrow> statement \<Rightarrow> task list \<Rightarrow> task list \<times> task list" where
  "execute same_id SelectAll t = (t, t)"
| "execute same_id (ToggleCompleted p) t =
     (map (\<lambda>r. if same_id p (task_id r) then r\<lparr>completed := \<not> completed r\<rparr> else r) t, [])"
| "execute same_id (SelectById p) t = (t, filter (\<lambda>r. same_id p (task_id r)) t)"
| "execute same_id (DeleteById p) t = (filter (\<lambda>r. \<not> same_id p (task_id r)) t, [])"

definition rejects :: "database \<Rightarrow> bool" where
  "rejects db = (case faults db of [] \<Rightarrow> False | f # _ \<Rightarrow> f)"

definition db_query ::
  "(string \<Rightarrow> int \<Rightarrow> bool) \<Rightarrow> statement \<Rightarrow> database \<Rightarrow> (db_error + task list) \<times> database" where
  "db_query same_id stmt db =
     (let db1 = db\<lparr>faults := tl (faults db)\<rparr>
      in if rejects db then (Inl QueryRejected, db1)
         else (let (t, rows) = execute same_id stmt (tasks db1)
               in (Inr rows, db1\<lparr>tasks := t\<rparr>)))"

text \<open>
  The names bound where the handlers of the tasks module run: the five the module
  declares and those of the handlers themselves. The module calls \<open>db.query\<close> but
  neither declares nor requires \<open>db\<close>, and the runtime has no global of that name.
\<close>

definition tasks_scope :: "string list" where
  "tasks_scope = [''express'', ''cors'', ''bodyParser'', ''app'', ''port'', ''req'', ''res'',
                  ''id'', ''rows'', ''result'', ''title'', ''description'', ''newTask'', ''error'']"

text \<open>
  What the \<open>catch\<close> block of a handler can be given: the \<open>ReferenceError\<close> of a name
  that is not bound, or the rejection of the query.
\<close>

datatype caught_value = NameError js_error | Rejection db_error

text \<open>
  \<open>await db.query(...)\<close> where the names of \<open>scope\<close> are bound: the name \<open>db\<close> is
  evaluated first and throws when it is not bound, before any query is made.
\<close>

definition await_db_query ::
  "string list \<Rightarrow> (string \<Rightarrow> int \<Rightarrow> bool) \<Rightarrow> statement \<Rightarrow> database
     \<Rightarrow> (caught_value + task list) \<times> database" where
  "await_db_query scope same_id stmt db =
     (if ''db'' \<in> set scope
      then (case db_query same_id stmt db of
              (Inl e, db1) \<Rightarrow> (Inl (Rejection e), db1)
            | (Inr rows, db1) \<Rightarrow> (Inr rows, db1))
      else (Inl (NameError (ReferenceError ''db'')), db))"

text \<open>\<open>serves n db\<close>: none of the next n queries is rejected.\<close>

definition serves :: "nat \<Rightarrow> database \<Rightarrow> bool" where
  "serves n db = list_all Not (take n (faults db))"

text \<open>The \<open>catch\<close> block of a handler: one line on the console, one answer with status 500.\<close>

definition caught :: "string \<Rightarrow> string \<Rightarrow> outcome" where
  "caught line msg = \<lparr>sent = [status_json 500 (ErrorJson msg)], logged = [line], thrown = None\<rparr>"

definition answered :: "payload \<Rightarrow> outcome" where
  "answered b = \<lparr>sent = [json b], logged = [], thrown = None\<rparr>"

text \<open>
  The handlers, each given the names bound where it runs; the module as it is runs them
  with \<open>tasks_scope\<close>. \<open>GET /api/tasks\<close>:
\<close>

definition get_tasks ::
  "string list \<Rightarrow> (string \<Rightarrow> int \<Rightarrow> bool) \<Rightarrow> database \<Rightarrow> database \<times> outcome" where
  "get_tasks scope same_id db =
     (case await_db_query scope same_id SelectAll db of
        (Inr rows, db1) \<Rightarrow> (db1, answered (TaskList rows))
      | (Inl error, db1) \<Rightarrow> (db1, caught ''Errore GET tasks'' ''Errore nel recupero tasks''))"

text \<open>\<open>PATCH /api/tasks/:id\<close>. \<open>rows[0]\<close> of an empty result is \<open>undefined\<close>.\<close>

definition patch_task ::
  "string list \<Rightarrow> (string \<Rightarrow> int \<Rightarrow> bool) \<Rightarrow> string \<Rightarrow> database \<Rightarrow> database \<times> outcome" where
  "patch_task scope same_id id' db =
     (case await_db_query scope same_id (ToggleCompleted id') db of
        (Inl error, db1) \<Rightarrow> (db1, caught ''Errore PATCH task'' ''Errore toggle task'')
      | (Inr _, db1) \<Rightarrow>
          (case await_db_query scope same_id (SelectById id') db1 of
             (Inl error, db2) \<Rightarrow> (db2, caught ''Errore PATCH task'' ''Errore toggle task'')
           | (Inr rows, db2) \<Rightarrow>
               (db2, answered (case rows of [] \<Rightarrow> Undefined | r # _ \<Rightarrow> TaskJson r))))"

text \<open>\<open>DELETE /api/tasks/:id\<close>.\<close>

definition delete_task ::
  "string list \<Rightarrow> (string \<Rightarrow> int \<Rightarrow> bool) \<Rightarrow> string \<Rightarrow> database \<Rightarrow> database \<times> outcome" where
  "delete_task scope same_id id' db =
     (case await_db_query scope same_id (DeleteById id') db of
        (Inl error, db1) \<Rightarrow> (db1, caught ''Errore DELETE task'' ''Errore eliminazione task'')
      | (Inr _, db1) \<Rightarrow> (db1, answered (SuccessJson True)))"

text \<open>
  On ids written in plain decimal, as the front end writes them, the comparison of the
  database is equality with the decimal text. The examples below use it.
\<close>

definition decimal_id :: "string \<Rightarrow> int \<Rightarrow> bool" where
  "decimal_id p i = (p = Number_toString i)"

text \<open>An example row: task 5, not completed.\<close>

definition task5 :: task where
  "task5 = \<lparr>task_id = 5, title = ''Spesa'', description = Some ''Latte e pane'', completed = False\<rparr>"

section \<open>The client gateway\<close>

text \<open>
  An exchange ends with the response of the server or with none (\<open>None\<close>: the
  transport failed). \<open>HttpClient\<close> delivers the body of a response whose status is in
  200..299 and signals an \<open>HttpErrorResponse\<close> for any other outcome, with status 0 when
  there was no response.
\<close>

datatype http_method = GET | POST | DELETE

record request =
  verb :: http_method
  url :: string
  sent_body :: "obj option"

datatype raw_error = HttpErrorResponse nat "payload option"

datatype domain_error = Error string

text \<open>
  What the subscriber of an observable sees: \<open>next\<close> with a value (\<open>Inr\<close>) or \<open>error\<close>
  with an error (\<open>Inl\<close>); \<open>console\<close> holds what \<open>console.error\<close> was given on the way.
\<close>

record observed =
  console :: "(string \<times> raw_error) list"
  notification :: "domain_error + payload"

definition failure :: "response option \<Rightarrow> bool" where
  "failure r = (case r of Some a \<Rightarrow> \<not> (200 \<le> status a \<and> status a < 300) | None \<Rightarrow> True)"

definition raw_of :: "response option \<Rightarrow> raw_error" where
  "raw_of r = (case r of Some a \<Rightarrow> HttpErrorResponse (status a) (Some (body a))
                       | None \<Rightarrow> HttpErrorResponse 0 None)"

definition http_request :: "response option \<Rightarrow> raw_error + payload" where
  "http_request r =
     (case r of
        Some a \<Rightarrow> if 200 \<le> status a \<and> status a < 300 then Inr (body a) else Inl (raw_of r)
      | None \<Rightarrow> Inl (raw_of r))"

text \<open>\<open>pipe(catchError(err => { console.error(line, err); return throwError(() => new Error(msg)) }))\<close>.\<close>

definition catchError :: "string \<Rightarrow> string \<Rightarrow> raw_error + payload \<Rightarrow> observed" where
  "catchError line msg r =
     (case r of
        Inr v \<Rightarrow> \<lparr>console = [], notification = Inr v\<rparr>
      | Inl err \<Rightarrow> \<lparr>console = [(line, err)], notification = Inl (Error msg)\<rparr>)"

definition apiUrl :: string where
  "apiUrl = ''http://localhost:8080/api/users''"

text \<open>The typographic apostrophe of the messages is U+2019, three bytes in UTF-8.\<close>

definition apostrophe :: string where
  "apostrophe = [CHR 0xE2, CHR 0x80, CHR 0x99]"

definition getUsers :: "(request \<Rightarrow> response option) \<Rightarrow> observed" where
  "getUsers http =
     catchError ''Errore nel recupero utenti'' ''Errore nel recupero degli utenti''
       (http_request (http \<lparr>verb = GET, url = apiUrl, sent_body = None\<rparr>))"

definition addUser :: "(request \<Rightarrow> response option) \<Rightarrow> obj \<Rightarrow> observed" where
  "addUser http user =
     catchError (''Errore nell'' @ apostrophe @ ''aggiunta utente'')
       (''Errore nell'' @ apostrophe @ ''aggiunta dell'' @ apostrophe @ ''utente.'')
       (http_request (http \<lparr>verb = POST, url = apiUrl, sent_body = Some user\<rparr>))"

text \<open>The template of \<open>removeUser\<close> is \<^verbatim>\<open>`${this.apiUrl}/${id}}`\<close>.\<close>

definition removeUser :: "(request \<Rightarrow> response option) \<Rightarrow> int \<Rightarrow> observed" where
  "removeUser http id' =
     catchError ''Errore nella cancellazione utente''
       (''Errore nella cancellazione dell'' @ apostrophe @ ''utente.'')
       (http_request
          (http \<lparr>verb = DELETE, url = apiUrl @ ''/'' @ Number_toString id' @ ''}'', sent_body = None\<rparr>))"

section \<open>From the URL to the delete handler\<close>

text \<open>
  The server listens on \<open>http://localhost:8080\<close>; the path of a URL is what follows
  the origin. The route \<open>/api/users/:id\<close> matches a path made of \<open>/api/users/\<close> and one
  non-empty segment without a slash, and that segment is \<open>req.params.id\<close>. (A brace
  that travels percent-encoded is decoded by the router, so the handler is given the
  segment as the template wrote it.)
\<close>

definition origin :: string where
  "origin = ''http://localhost:8080''"

definition after_prefix :: "string \<Rightarrow> string \<Rightarrow> string option" where
  "after_prefix p s = (if take (length p) s = p then Some (drop (length p) s) else None)"

definition users_id_route :: "string \<Rightarrow> string option" where
  "users_id_route path =
     (case after_prefix ''/api/users/'' path of
        None \<Rightarrow> None
      | Some seg \<Rightarrow> if seg \<noteq> [] \<and> CHR ''/'' \<notin> set seg then Some seg else None)"

definition delete_by_url :: "string \<Rightarrow> user list \<Rightarrow> (user list \<times> outcome) option" where
  "delete_by_url u users =
     (case after_prefix origin u of
        None \<Rightarrow> None
      | Some path \<Rightarrow>
          (case users_id_route path of
             None \<Rightarrow> None
           | Some param \<Rightarrow> Some (delete_users param users)))"

section \<open>Id assignment\<close>

lemma Math_max_Max: "Math_max x xs = Max (set (x # xs))"
  unfolding Math_max_def by (rule Max.set_eq_fold [symmetric])

lemma next_id_Max:
  "next_id users = (if users = [] then 1 else Max (set (map user_id users)) + 1)"
  by (cases users) (simp_all add: next_id_def Math_max_Max)

lemma next_id_upto:
  assumes "map user_id users = [1..k]" "0 \<le> k"
  shows "next_id users = k + 1"
proof (cases "k = 0")
  case True
  with assms show ?thesis by (simp add: next_id_Max)
next
  case False
  with assms have k: "1 \<le> k" by simp
  then have ne: "users \<noteq> []" using assms(1) by (auto simp: upto.simps)
  have "set (map user_id users) = {1..k}" using assms(1) by simp
  then have "Max (set (map user_id users)) = k" using k by (auto intro: Max_eqI)
  with ne show ?thesis by (simp add: next_id_Max)
qed

lemma post_run_upto:
  "map user_id users = [1..k] \<Longrightarrow> 0 \<le> k \<Longrightarrow>
   assigned_ids (snd (users_run (map PostUser bs) users)) = [k + 1..k + int (length bs)]
   \<and> map user_id (fst (users_run (map PostUser bs) users)) = [1..k + int (length bs)]"
proof (induction bs arbitrary: users k)
  case Nil
  then show ?case by simp
next
  case (Cons b bs)
  let ?u = "fst (post_users b users)"
  have n: "next_id users = k + 1" using Cons.prems by (rule next_id_upto)
  have "map user_id ?u = [1..k + 1]" using Cons.prems n
    by (simp add: post_users_def Let_def upto_rec2)
  from Cons.IH [OF this] Cons.prems(2)
  have ih: "assigned_ids (snd (users_run (map PostUser bs) ?u)) = [k + 1 + 1..k + 1 + int (length bs)]"
    and ih2: "map user_id (fst (users_run (map PostUser bs) ?u)) = [1..k + 1 + int (length bs)]"
    by simp_all
  have out: "assigned_ids (snd (post_users b users) # outs) = (k + 1) # assigned_ids outs" for outs
    using n by (simp add: post_users_def Let_def silent_def json_def)
  have run: "users_run (map PostUser (b # bs)) users =
      (fst (users_run (map PostUser bs) ?u), snd (post_users b users) # snd (users_run (map PostUser bs) ?u))"
    by (simp add: split_beta)
  have up: "[k + 1..k + int (length (b # bs))] = (k + 1) # [k + 1 + 1..k + 1 + int (length bs)]"
  proof -
    have e: "k + int (length (b # bs)) = k + 1 + int (length bs)" by simp
    have "k + 1 \<le> k + 1 + int (length bs)" by simp
    then show ?thesis unfolding e by (rule upto_rec1 [THEN trans]) simp
  qed
  have e2: "k + int (length (b # bs)) = k + 1 + int (length bs)" by simp
  have a: "assigned_ids (snd (users_run (map PostUser (b # bs)) users)) = [k + 1..k + int (length (b # bs))]"
    unfolding run snd_conv out ih up ..
  have m: "map user_id (fst (users_run (map PostUser (b # bs)) users)) = [1..k + int (length (b # bs))]"
    unfolding run fst_conv ih2 e2 ..
  from a m show ?case ..
qed

text \<open>
  C2. From an empty store, the creates of any sequence are answered with the ids
  1, 2, ..., one per create in order, so the i-th create is given id i. In any store a
  create appends and returns an entity whose id is 1 when the store is empty and the
  largest stored id plus one otherwise.
\<close>

theorem create_assigns_next_id:
  "assigned_ids (snd (users_run (map PostUser bs) [])) = [1..int (length bs)]
   \<and> map user_id (fst (post_users b users)) =
       map user_id users @ [if users = [] then 1 else Max (set (map user_id users)) + 1]
   \<and> assigned_ids [snd (post_users b users)] =
       [if users = [] then 1 else Max (set (map user_id users)) + 1]"
proof -
  have "map user_id ([] :: user list) = [1..0]" by simp
  from post_run_upto [OF this, of bs] have "assigned_ids (snd (users_run (map PostUser bs) [])) = [1..int (length bs)]"
    by simp
  then show ?thesis
    by (simp add: post_users_def Let_def silent_def json_def next_id_Max)
qed

section \<open>Decimal text and \<open>parseInt\<close>\<close>

lemma digit_char_facts:
  assumes "d < 10"
  shows "digit_of (digit_char d) = Some d" "is_digit 10 (digit_char d)" "\<not> is_white (digit_char d)"
    "digit_char d \<noteq> CHR ''-''" "digit_char d \<noteq> CHR ''+''"
    "digit_char d \<noteq> CHR ''x''" "digit_char d \<noteq> CHR ''X''"
proof -
  from assms have "d \<in> {0, 1, 2, 3, 4, 5, 6, 7, 8, 9}" by auto
  then have c: "digit_char d \<in> set ''0123456789'' \<and> (of_char (digit_char d) :: nat) = 48 + d"
    unfolding digit_char_def by auto
  then show "digit_of (digit_char d) = Some d" using assms by (simp add: digit_of_def)
  then show "is_digit 10 (digit_char d)" using assms by (simp add: is_digit_def)
  show "\<not> is_white (digit_char d)" using c unfolding is_white_def by auto
  show "digit_char d \<noteq> CHR ''-''" "digit_char d \<noteq> CHR ''+''"
    "digit_char d \<noteq> CHR ''x''" "digit_char d \<noteq> CHR ''X''" using c by auto
qed

lemma digits_of_chars: "c \<in> set (digits_of n) \<Longrightarrow> \<exists>d<10. c = digit_char d"
proof (induction n arbitrary: c rule: digits_of.induct)
  case (1 n)
  show ?case
  proof (cases "n < 10")
    case True
    with "1.prems" show ?thesis by (auto simp: digits_of.simps [of n])
  next
    case False
    with "1.prems" have "c \<in> set (digits_of (n div 10)) \<or> c = digit_char (n mod 10)"
      by (auto simp add: digits_of.simps [of n])
    then show ?thesis
    proof
      assume "c \<in> set (digits_of (n div 10))"
      with False "1.IH" show ?thesis by blast
    next
      assume "c = digit_char (n mod 10)"
      moreover have "n mod 10 < 10" by simp
      ultimately show ?thesis by blast
    qed
  qed
qed

lemma digits_of_nonempty: "digits_of n \<noteq> []"
  by (subst digits_of.simps) simp

lemma radix_value_snoc:
  "radix_value R (Z @ [c]) = radix_value R Z * R + (case digit_of c of Some d \<Rightarrow> d | None \<Rightarrow> 0)"
  by (simp add: radix_value_def)

lemma radix_value_digits: "radix_value 10 (digits_of n) = n"
proof (induction n rule: digits_of.induct)
  case (1 n)
  show ?case
  proof (cases "n < 10")
    case True
    then show ?thesis
      by (simp add: digits_of.simps [of n] radix_value_def digit_char_facts(1))
  next
    case False
    have "n mod 10 < 10" by simp
    then have "digit_of (digit_char (n mod 10)) = Some (n mod 10)" by (rule digit_char_facts(1))
    with False "1.IH" show ?thesis
      by (simp add: digits_of.simps [of n] radix_value_snoc)
  qed
qed


lemma takeWhile_digits: "takeWhile (is_digit 10) (digits_of n @ ''}'') = digits_of n"
proof -
  have "\<And>c. c \<in> set (digits_of n) \<Longrightarrow> is_digit 10 c"
    using digits_of_chars digit_char_facts(2) by blast
  then have "takeWhile (is_digit 10) (digits_of n @ ''}'') = digits_of n @ takeWhile (is_digit 10) ''}''"
    by (rule takeWhile_append2)
  then show ?thesis by (simp add: is_digit_def digit_of_def)
qed

lemma no_hex_prefix:
  "take 2 (digits_of n @ ''}'') \<noteq> ''0x''" "take 2 (digits_of n @ ''}'') \<noteq> ''0X''"
proof -
  have "c \<noteq> CHR ''x'' \<and> c \<noteq> CHR ''X''" if "c \<in> set (digits_of n @ ''}'')" for c
  proof (cases "c \<in> set (digits_of n)")
    case True
    then obtain d where "d < 10" "c = digit_char d" using digits_of_chars by blast
    then show ?thesis using digit_char_facts(6,7) [of d] by simp
  next
    case False
    with that show ?thesis by simp
  qed
  note nx = this
  have a: "CHR ''x'' \<notin> set (digits_of n @ ''}'')" "CHR ''X'' \<notin> set (digits_of n @ ''}'')"
    using nx [of "CHR ''x''"] nx [of "CHR ''X''"] by (simp_all only: simp_thms) fast+
  show "take 2 (digits_of n @ ''}'') \<noteq> ''0x''"
  proof
    assume e: "take 2 (digits_of n @ ''}'') = ''0x''"
    have "CHR ''x'' \<in> set (take 2 (digits_of n @ ''}''))" unfolding e by simp
    then have "CHR ''x'' \<in> set (digits_of n @ ''}'')" by (rule in_set_takeD)
    with a(1) show False ..
  qed
  show "take 2 (digits_of n @ ''}'') \<noteq> ''0X''"
  proof
    assume e: "take 2 (digits_of n @ ''}'') = ''0X''"
    have "CHR ''X'' \<in> set (take 2 (digits_of n @ ''}''))" unfolding e by simp
    then have "CHR ''X'' \<in> set (digits_of n @ ''}'')" by (rule in_set_takeD)
    with a(2) show False ..
  qed
qed

lemma parse_after_sign:
  "(let (R, S2) = (if take 2 (digits_of n @ ''}'') = ''0x'' \<or> take 2 (digits_of n @ ''}'') = ''0X''
                   then (16::nat, drop 2 (digits_of n @ ''}'')) else (10, digits_of n @ ''}''));
        Z = takeWhile (is_digit R) S2
    in if Z = [] then None else Some (sign * int (radix_value R Z))) = Some (sign * int n)"
proof -
  have h: "\<not> (take 2 (digits_of n @ ''}'') = ''0x'' \<or> take 2 (digits_of n @ ''}'') = ''0X'')"
    using no_hex_prefix by blast
  show ?thesis unfolding if_not_P [OF h]
    by (simp only: Let_def split_conv takeWhile_digits)
       (simp add: digits_of_nonempty radix_value_digits)
qed

lemma parse_digits: "parseInt (digits_of n @ ''}'') = Some (int n)"
proof -
  obtain c r where cr: "digits_of n = c # r" using digits_of_nonempty [of n] by (cases "digits_of n") auto
  then have "c \<in> set (digits_of n)" by simp
  then obtain d where d: "d < 10" "c = digit_char d" using digits_of_chars by blast
  have w: "dropWhile is_white (digits_of n @ ''}'') = digits_of n @ ''}''"
    using cr d digit_char_facts(3) by simp
  have s: "(case digits_of n @ ''}'' of [] \<Rightarrow> (1::int, digits_of n @ ''}'')
        | c # r \<Rightarrow> if c = CHR ''-'' then (- 1, r) else if c = CHR ''+'' then (1, r) else (1, digits_of n @ ''}''))
       = (1, digits_of n @ ''}'')"
    using cr d digit_char_facts(4,5) by simp
  show ?thesis unfolding parseInt_def w Let_def s using parse_after_sign [of n 1, unfolded Let_def] by simp
qed

lemma parse_negative: "parseInt (CHR ''-'' # digits_of n @ ''}'') = Some (- int n)"
proof -
  have w: "dropWhile is_white (CHR ''-'' # digits_of n @ ''}'') = CHR ''-'' # digits_of n @ ''}''"
    by (simp add: is_white_def)
  show ?thesis unfolding parseInt_def w Let_def using parse_after_sign [of n "- 1", unfolded Let_def] by simp
qed

lemma parseInt_Number_toString:
  assumes "\<bar>n\<bar> < 10 ^ 21"
  shows "parseInt (Number_toString n @ ''}'') = Some n"
proof -
  show ?thesis
  proof (cases "n < 0")
    case True
    with assms have "nat (- n) < 10 ^ 21" by (simp add: nat_less_iff)
    then have "magnitude_text (nat (- n)) = digits_of (nat (- n))"
      unfolding magnitude_text_def by (rule if_P)
    with True parse_negative [of "nat (- n)"] show ?thesis
      by (simp add: Number_toString_def)
  next
    case False
    with assms have "nat n < 10 ^ 21" by (simp add: nat_less_iff)
    then have "magnitude_text (nat n) = digits_of (nat n)"
      unfolding magnitude_text_def by (rule if_P)
    with False parse_digits [of "nat n"] show ?thesis
      by (simp add: Number_toString_def)
  qed
qed

lemma safe_below_exponent: "isSafeInteger n \<Longrightarrow> \<bar>n\<bar> < 10 ^ 21"
  by (simp add: isSafeInteger_def)

section \<open>The tasks handlers\<close>

lemma decimal_id_examples:
  "decimal_id ''5'' 5" "\<not> decimal_id ''99'' 5" "\<not> decimal_id ''7'' 5" "\<not> decimal_id ''abc'' 5"
  by (simp_all add: decimal_id_def Number_toString_def magnitude_text_def
        digits_of.simps [of 5] digit_char_def)

lemma filter_none:
  "\<forall>r\<in>set t. \<not> P r \<Longrightarrow>
   filter (\<lambda>r. \<not> P r) t = t \<and> filter P t = [] \<and> map (\<lambda>r. if P r then f r else r) t = t"
  by (induction t) auto

lemma db_unbound: "''db'' \<notin> set tasks_scope"
  by (simp add: tasks_scope_def)

lemma await_unbound:
  "''db'' \<notin> set scope \<Longrightarrow>
   await_db_query scope same_id stmt db = (Inl (NameError (ReferenceError ''db'')), db)"
  by (simp add: await_db_query_def)

lemma await_served:
  "''db'' \<in> set scope \<Longrightarrow> \<not> rejects db \<Longrightarrow>
   await_db_query scope same_id stmt db =
     (Inr (snd (execute same_id stmt (tasks db))),
      \<lparr>tasks = fst (execute same_id stmt (tasks db)), faults = tl (faults db)\<rparr>)"
  by (simp add: await_db_query_def db_query_def Let_def split_beta)

lemma await_rejected:
  "''db'' \<in> set scope \<Longrightarrow> rejects db \<Longrightarrow>
   await_db_query scope same_id stmt db = (Inl (Rejection QueryRejected), db\<lparr>faults := tl (faults db)\<rparr>)"
  by (simp add: await_db_query_def db_query_def Let_def)

text \<open>
  With \<open>db\<close> not bound, each handler goes from its first \<open>db.query\<close> to its \<open>catch\<close>
  block: the database is not asked anything and the answer is the handler's 500.
\<close>

lemma get_tasks_unbound:
  "''db'' \<notin> set scope \<Longrightarrow>
   get_tasks scope same_id db = (db, caught ''Errore GET tasks'' ''Errore nel recupero tasks'')"
  by (simp add: get_tasks_def await_unbound)

lemma patch_task_unbound:
  "''db'' \<notin> set scope \<Longrightarrow>
   patch_task scope same_id p db = (db, caught ''Errore PATCH task'' ''Errore toggle task'')"
  by (simp add: patch_task_def await_unbound)

lemma delete_task_unbound:
  "''db'' \<notin> set scope \<Longrightarrow>
   delete_task scope same_id p db = (db, caught ''Errore DELETE task'' ''Errore eliminazione task'')"
  by (simp add: delete_task_def await_unbound)

lemma toggle_select:
  assumes "find Q t = Some x" and "\<And>r c. Q (r\<lparr>completed := c\<rparr>) = Q r"
  shows "\<exists>rest. filter Q (map (\<lambda>r. if Q r then r\<lparr>completed := \<not> completed r\<rparr> else r) t)
         = x\<lparr>completed := \<not> completed x\<rparr> # rest"
  using assms(1) by (induction t) (auto split: if_splits simp: assms(2))

lemma toggle_twice:
  "map ((\<lambda>r. if Q (task_id r) then r\<lparr>completed := \<not> completed r\<rparr> else r) \<circ>
        (\<lambda>r. if Q (task_id r) then r\<lparr>completed := \<not> completed r\<rparr> else r)) t = t"
  by (induction t) auto

lemma find_toggled:
  assumes "find Q t = Some x" and "\<And>r c. Q (r\<lparr>completed := c\<rparr>) = Q r"
  shows "find Q (map (\<lambda>r. if Q r then r\<lparr>completed := \<not> completed r\<rparr> else r) t)
         = Some (x\<lparr>completed := \<not> completed x\<rparr>)"
  using assms(1) by (induction t) (auto split: if_splits simp: assms(2))

lemma patch_task_served:
  assumes "''db'' \<in> set scope" and "serves 2 db"
    and "find (\<lambda>r. same_id p (task_id r)) (tasks db) = Some x"
  shows "patch_task scope same_id p db =
           (\<lparr>tasks = map (\<lambda>r. if same_id p (task_id r) then r\<lparr>completed := \<not> completed r\<rparr> else r) (tasks db),
             faults = drop 2 (faults db)\<rparr>,
            answered (TaskJson (x\<lparr>completed := \<not> completed x\<rparr>)))"
proof -
  let ?t = "map (\<lambda>r. if same_id p (task_id r) then r\<lparr>completed := \<not> completed r\<rparr> else r) (tasks db)"
  let ?db1 = "\<lparr>tasks = ?t, faults = tl (faults db)\<rparr>"
  from assms(2) have s1: "\<not> rejects db" and s2: "\<not> rejects ?db1"
    by (cases "faults db"; cases "tl (faults db)"; simp add: serves_def rejects_def)+
  have q1: "await_db_query scope same_id (ToggleCompleted p) db = (Inr [], ?db1)"
    using s1 assms(1) by (simp add: await_served)
  from toggle_select [where Q = "\<lambda>r. same_id p (task_id r)", OF assms(3)] obtain rest where
    sel: "filter (\<lambda>r. same_id p (task_id r)) ?t = x\<lparr>completed := \<not> completed x\<rparr> # rest" by auto
  have q2: "await_db_query scope same_id (SelectById p) ?db1 =
      (Inr (x\<lparr>completed := \<not> completed x\<rparr> # rest), \<lparr>tasks = ?t, faults = drop 2 (faults db)\<rparr>)"
    using s2 sel assms(1) by (simp add: await_served drop_Suc numeral_2_eq_2 tl_drop)
  show ?thesis unfolding patch_task_def q1 by (simp add: q2)
qed

subsection \<open>Deleting a task that is not there\<close>

text \<open>
  C1, as amended. \<open>DELETE /api/tasks/:id\<close> with an id that matches no row never answers
  404: the handler sends exactly one response, either 200 with \<open>{success: true}\<close> or 500
  with \<open>{error: 'Errore eliminazione task'}\<close>, and the rows are the same afterwards.
  This holds whatever names are bound where the handler runs.
\<close>

theorem delete_task_absent_id:
  assumes "\<forall>r\<in>set (tasks db). \<not> same_id p (task_id r)"
  shows "(snd (delete_task scope same_id p db) = answered (SuccessJson True)
          \<or> snd (delete_task scope same_id p db) =
              caught ''Errore DELETE task'' ''Errore eliminazione task'')
         \<and> tasks (fst (delete_task scope same_id p db)) = tasks db"
proof (cases "''db'' \<in> set scope")
  case False
  then show ?thesis by (simp add: delete_task_unbound)
next
  case True
  from filter_none [where P = "\<lambda>r. same_id p (task_id r)" and f = id, OF assms]
  have n: "filter (\<lambda>r. \<not> same_id p (task_id r)) (tasks db) = tasks db" by blast
  show ?thesis
    by (cases "rejects db") (simp_all add: delete_task_def await_served await_rejected True n)
qed

text \<open>
  C1, witness: the module as it is, the table holding task 5 only, and the id 99. The
  answer is the handler's 500.
\<close>

theorem delete_task_absent_id_witness:
  "\<not> decimal_id ''99'' (task_id task5)
   \<and> snd (delete_task tasks_scope decimal_id ''99'' \<lparr>tasks = [task5], faults = []\<rparr>) =
       \<lparr>sent = [\<lparr>status = 500, body = ErrorJson ''Errore eliminazione task''\<rparr>],
        logged = [''Errore DELETE task''], thrown = None\<rparr>
   \<and> tasks (fst (delete_task tasks_scope decimal_id ''99'' \<lparr>tasks = [task5], faults = []\<rparr>)) = [task5]"
proof -
  have h: "\<forall>r\<in>set (tasks \<lparr>tasks = [task5], faults = []\<rparr>). \<not> decimal_id ''99'' (task_id r)"
    by (simp add: task5_def decimal_id_examples)
  have a: "\<not> decimal_id ''99'' (task_id task5)" using h by simp
  have b: "snd (delete_task tasks_scope decimal_id ''99'' \<lparr>tasks = [task5], faults = []\<rparr>) =
       \<lparr>sent = [\<lparr>status = 500, body = ErrorJson ''Errore eliminazione task''\<rparr>],
        logged = [''Errore DELETE task''], thrown = None\<rparr>"
    by (simp add: delete_task_unbound db_unbound caught_def status_json_def)
  from delete_task_absent_id [where same_id = decimal_id and p = "''99''" and scope = tasks_scope, OF h]
  have c: "tasks (fst (delete_task tasks_scope decimal_id ''99'' \<lparr>tasks = [task5], faults = []\<rparr>)) = [task5]"
    by simp
  from a b c show ?thesis by (intro conjI)
qed

text \<open>
  C1, counterexample to the claim as stated: no row has id 99, and the module as it is
  answers \<open>DELETE /api/tasks/99\<close> with status 500, not 404.
\<close>

theorem delete_absent_counterexample:
  "\<not> decimal_id ''99'' (task_id task5)
   \<and> sent (snd (delete_task tasks_scope decimal_id ''99'' \<lparr>tasks = [task5], faults = []\<rparr>)) =
       [\<lparr>status = 500, body = ErrorJson ''Errore eliminazione task''\<rparr>]"
  by (simp add: delete_task_unbound db_unbound caught_def status_json_def task5_def decimal_id_examples)

subsection \<open>Toggling a task\<close>

text \<open>
  What the handler is written to do, were \<open>db\<close> bound: when the id selects a row and the
  two queries are served, \<open>PATCH /api/tasks/:id\<close> negates \<open>completed\<close> in the rows the id
  selects, leaves every other row as it was, and answers 200 with the selected row as
  it is after the update; a second \<open>PATCH\<close> with the same id puts the table back.
\<close>

lemma patch_task_toggles_when_bound:
  assumes "''db'' \<in> set scope" and "serves 2 db"
    and "find (\<lambda>r. same_id p (task_id r)) (tasks db) = Some x"
  shows "patch_task scope same_id p db =
           (\<lparr>tasks = map (\<lambda>r. if same_id p (task_id r) then r\<lparr>completed := \<not> completed r\<rparr> else r) (tasks db),
             faults = drop 2 (faults db)\<rparr>,
            answered (TaskJson (x\<lparr>completed := \<not> completed x\<rparr>)))
         \<and> (serves 4 db \<longrightarrow>
              patch_task scope same_id p (fst (patch_task scope same_id p db)) =
                (\<lparr>tasks = tasks db, faults = drop 4 (faults db)\<rparr>, answered (TaskJson x)))"
proof (intro conjI impI)
  let ?t = "map (\<lambda>r. if same_id p (task_id r) then r\<lparr>completed := \<not> completed r\<rparr> else r) (tasks db)"
  let ?db1 = "\<lparr>tasks = ?t, faults = drop 2 (faults db)\<rparr>"
  show first: "patch_task scope same_id p db = (?db1, answered (TaskJson (x\<lparr>completed := \<not> completed x\<rparr>)))"
    using assms by (rule patch_task_served)
  assume "serves 4 db"
  then have s: "serves 2 ?db1"
    by (cases "faults db"; cases "tl (faults db)"; cases "tl (tl (faults db))"; cases "tl (tl (tl (faults db)))")
       (auto simp: serves_def)
  have f: "find (\<lambda>r. same_id p (task_id r)) (tasks ?db1) = Some (x\<lparr>completed := \<not> completed x\<rparr>)"
    using find_toggled [where Q = "\<lambda>r. same_id p (task_id r)", OF assms(3)] by simp
  from patch_task_served [where same_id = same_id and p = p, OF assms(1) s f]
  show "patch_task scope same_id p (fst (patch_task scope same_id p db)) =
          (\<lparr>tasks = tasks db, faults = drop 4 (faults db)\<rparr>, answered (TaskJson x))"
    unfolding first by (simp add: toggle_twice [where Q = "same_id p"])
qed

text \<open>
  C3, at the failing input. The module as it is does not bind \<open>db\<close>. With task 5 in the
  table, not completed, \<open>PATCH /api/tasks/5\<close> throws at \<open>db\<close> inside \<open>try\<close>: the handler
  answers 500 with \<open>{error: 'Errore toggle task'}\<close> and the row is still not completed.
\<close>

theorem patch_task_as_shipped:
  "decimal_id ''5'' (task_id task5)
   \<and> completed task5 = False
   \<and> patch_task tasks_scope decimal_id ''5'' \<lparr>tasks = [task5], faults = []\<rparr> =
       (\<lparr>tasks = [task5], faults = []\<rparr>,
        \<lparr>sent = [\<lparr>status = 500, body = ErrorJson ''Errore toggle task''\<rparr>],
         logged = [''Errore PATCH task''], thrown = None\<rparr>)"
  by (simp add: patch_task_unbound db_unbound caught_def status_json_def task5_def decimal_id_examples)

subsection \<open>Toggling a task that is not there\<close>

text \<open>
  C4, as amended. \<open>PATCH /api/tasks/:id\<close> with an id that matches no row never answers
  404: the handler sends exactly one response, either 200 with an empty body
  (\<open>rows[0]\<close> is \<open>undefined\<close>) or 500 with \<open>{error: 'Errore toggle task'}\<close>, and the rows
  are the same afterwards. This holds whatever names are bound where the handler runs.
\<close>

theorem patch_task_absent_id:
  assumes "\<forall>r\<in>set (tasks db). \<not> same_id p (task_id r)"
  shows "(snd (patch_task scope same_id p db) = answered Undefined
          \<or> snd (patch_task scope same_id p db) = caught ''Errore PATCH task'' ''Errore toggle task'')
         \<and> tasks (fst (patch_task scope same_id p db)) = tasks db"
proof (cases "''db'' \<in> set scope")
  case False
  then show ?thesis by (simp add: patch_task_unbound)
next
  case True
  let ?P = "\<lambda>r. same_id p (task_id r)"
  from filter_none [where P = ?P and f = "\<lambda>r. r\<lparr>completed := \<not> completed r\<rparr>", OF assms]
  have n: "filter ?P (tasks db) = []"
    "map (\<lambda>r. if ?P r then r\<lparr>completed := \<not> completed r\<rparr> else r) (tasks db) = tasks db"
    by blast+
  let ?db1 = "\<lparr>tasks = tasks db, faults = tl (faults db)\<rparr>"
  show ?thesis
  proof (cases "rejects db")
    case rej: True
    with True show ?thesis by (simp add: patch_task_def await_rejected)
  next
    case False
    then have q1: "await_db_query scope same_id (ToggleCompleted p) db = (Inr [], ?db1)"
      using n(2) True by (simp add: await_served)
    show ?thesis unfolding patch_task_def q1
      by (cases "rejects ?db1") (simp_all add: await_served await_rejected True n)
  qed
qed

text \<open>
  C4, witness: the module as it is, the table holding task 5 only, and the id 7. The
  answer is the handler's 500.
\<close>

theorem patch_task_absent_id_witness:
  "\<not> decimal_id ''7'' (task_id task5)
   \<and> snd (patch_task tasks_scope decimal_id ''7'' \<lparr>tasks = [task5], faults = []\<rparr>) =
        \<lparr>sent = [\<lparr>status = 500, body = ErrorJson ''Errore toggle task''\<rparr>],
         logged = [''Errore PATCH task''], thrown = None\<rparr>
   \<and> tasks (fst (patch_task tasks_scope decimal_id ''7'' \<lparr>tasks = [task5], faults = []\<rparr>)) = [task5]"
proof -
  have h: "\<forall>r\<in>set (tasks \<lparr>tasks = [task5], faults = []\<rparr>). \<not> decimal_id ''7'' (task_id r)"
    by (simp add: task5_def decimal_id_examples)
  have a: "\<not> decimal_id ''7'' (task_id task5)" using h by simp
  have b: "snd (patch_task tasks_scope decimal_id ''7'' \<lparr>tasks = [task5], faults = []\<rparr>) =
        \<lparr>sent = [\<lparr>status = 500, body = ErrorJson ''Errore toggle task''\<rparr>],
         logged = [''Errore PATCH task''], thrown = None\<rparr>"
    by (simp add: patch_task_unbound db_unbound caught_def status_json_def)
  from patch_task_absent_id [where same_id = decimal_id and p = "''7''" and scope = tasks_scope, OF h]
  have c: "tasks (fst (patch_task tasks_scope decimal_id ''7'' \<lparr>tasks = [task5], faults = []\<rparr>)) = [task5]"
    by simp
  from a b c show ?thesis by (intro conjI)
qed

text \<open>
  C4, counterexample to the claim as stated: no row has id 7, and the module as it is
  answers \<open>PATCH /api/tasks/7\<close> with status 500, not 404.
\<close>

theorem patch_absent_counterexample:
  "\<not> decimal_id ''7'' (task_id task5)
   \<and> sent (snd (patch_task tasks_scope decimal_id ''7'' \<lparr>tasks = [task5], faults = []\<rparr>)) =
       [\<lparr>status = 500, body = ErrorJson ''Errore toggle task''\<rparr>]"
  by (simp add: patch_task_unbound db_unbound caught_def status_json_def task5_def decimal_id_examples)

subsection \<open>Listing the tasks when the query fails\<close>

text \<open>
  C7. When the query of \<open>GET /api/tasks\<close> fails, because the pool rejects it or because
  \<open>db\<close> is not bound where the handler runs, the handler writes one line to the console
  and sends exactly one response, status 500 with body
  \<open>{error: 'Errore nel recupero tasks'}\<close>: no rows are sent and nothing is thrown.
\<close>

theorem get_tasks_failure:
  assumes "rejects db \<or> ''db'' \<notin> set scope"
  shows "get_tasks scope same_id db =
           (if ''db'' \<in> set scope then db\<lparr>faults := tl (faults db)\<rparr> else db,
            \<lparr>sent = [\<lparr>status = 500, body = ErrorJson ''Errore nel recupero tasks''\<rparr>],
             logged = [''Errore GET tasks''], thrown = None\<rparr>)"
  using assms
  by (cases "''db'' \<in> set scope")
     (simp_all add: get_tasks_def await_rejected await_unbound caught_def status_json_def)

text \<open>
  C7, witness: the module as it is (\<open>db\<close> not bound), and the module with \<open>db\<close> bound and
  a pool that rejects the next query.
\<close>

theorem get_tasks_failure_witness:
  "''db'' \<notin> set tasks_scope
   \<and> get_tasks tasks_scope decimal_id \<lparr>tasks = [task5], faults = []\<rparr> =
        (\<lparr>tasks = [task5], faults = []\<rparr>,
         \<lparr>sent = [\<lparr>status = 500, body = ErrorJson ''Errore nel recupero tasks''\<rparr>],
          logged = [''Errore GET tasks''], thrown = None\<rparr>)
   \<and> rejects \<lparr>tasks = [task5], faults = [True]\<rparr>
   \<and> get_tasks (''db'' # tasks_scope) decimal_id \<lparr>tasks = [task5], faults = [True]\<rparr> =
        (\<lparr>tasks = [task5], faults = []\<rparr>,
         \<lparr>sent = [\<lparr>status = 500, body = ErrorJson ''Errore nel recupero tasks''\<rparr>],
          logged = [''Errore GET tasks''], thrown = None\<rparr>)"
proof -
  have u: "''db'' \<notin> set tasks_scope" by (rule db_unbound)
  have h: "rejects \<lparr>tasks = [task5], faults = [True]\<rparr>" by (simp add: rejects_def)
  from get_tasks_failure [where scope = tasks_scope and same_id = decimal_id
      and db = "\<lparr>tasks = [task5], faults = []\<rparr>"] u
  have a: "get_tasks tasks_scope decimal_id \<lparr>tasks = [task5], faults = []\<rparr> =
        (\<lparr>tasks = [task5], faults = []\<rparr>,
         \<lparr>sent = [\<lparr>status = 500, body = ErrorJson ''Errore nel recupero tasks''\<rparr>],
          logged = [''Errore GET tasks''], thrown = None\<rparr>)"
    by simp
  from get_tasks_failure [where scope = "''db'' # tasks_scope" and same_id = decimal_id
      and db = "\<lparr>tasks = [task5], faults = [True]\<rparr>"] h
  have b: "get_tasks (''db'' # tasks_scope) decimal_id \<lparr>tasks = [task5], faults = [True]\<rparr> =
        (\<lparr>tasks = [task5], faults = []\<rparr>,
         \<lparr>sent = [\<lparr>status = 500, body = ErrorJson ''Errore nel recupero tasks''\<rparr>],
          logged = [''Errore GET tasks''], thrown = None\<rparr>)"
    by simp
  from u a h b show ?thesis by (intro conjI)
qed

section \<open>The users handlers\<close>

lemma next_id_fresh: "next_id users \<notin> set (map user_id users)"
proof (cases "users = []")
  case True
  then show ?thesis by simp
next
  case False
  then have "\<forall>i\<in>set (map user_id users). i \<le> Max (set (map user_id users))" by simp
  then have "Max (set (map user_id users)) + 1 \<notin> set (map user_id users)" by fastforce
  with False show ?thesis by (simp add: next_id_Max)
qed

lemma distinct_splice1: "distinct xs \<Longrightarrow> distinct (splice1 i xs)"
  unfolding splice1_def
  by (simp add: set_take_disj_set_drop_if_distinct)

lemma map_splice1: "map f (splice1 i xs) = splice1 i (map f xs)"
  by (simp add: splice1_def take_map drop_map)

lemma esle_unbound: "''esle'' \<notin> set bound_names"
  by (simp add: bound_names_def)

lemma delete_users_unfold:
  "delete_users param users =
     (let index = findIndex (\<lambda>user. Some (user_id user) = parseInt param) users
      in if index \<noteq> - 1
         then (splice1 (nat index) users,
               \<lparr>sent = [json (UserJson (users ! nat index))], logged = [],
                thrown = Some (ReferenceError ''esle'')\<rparr>)
         else (users, \<lparr>sent = [], logged = [], thrown = Some (ReferenceError ''esle'')\<rparr>))"
  by (simp add: delete_users_def Let_def and_then_def evaluate_name_def res_send_def silent_def esle_unbound)

lemma users_handle_distinct:
  assumes "distinct (map user_id users)"
  shows "distinct (map user_id (fst (users_handle r users)))"
proof (cases r)
  case GetUsers
  with assms show ?thesis by (simp add: get_users_def)
next
  case (PostUser b)
  with assms next_id_fresh [of users] show ?thesis by (simp add: post_users_def Let_def)
next
  case (DeleteUser p)
  with assms show ?thesis
    by (simp add: delete_users_unfold Let_def map_splice1 distinct_splice1)
qed

lemma users_run_distinct:
  "distinct (map user_id users) \<Longrightarrow> distinct (map user_id (fst (users_run rs users)))"
proof (induction rs arbitrary: users)
  case Nil
  then show ?case by simp
next
  case (Cons r rs)
  from Cons.prems have "distinct (map user_id (fst (users_handle r users)))"
    by (rule users_handle_distinct)
  then have "distinct (map user_id (fst (users_run rs (fst (users_handle r users)))))"
    by (rule Cons.IH)
  then show ?case by (simp add: split_beta)
qed

text \<open>
  The delete handler as it runs: whether or not a user has the parsed id, the statement
  \<^verbatim>\<open>esle\<close> throws, and the block that answers 404 is never reached.
\<close>

lemma delete_users_throws:
  "thrown (snd (delete_users param users)) = Some (ReferenceError ''esle'')
   \<and> (findIndex (\<lambda>user. Some (user_id user) = parseInt param) users = - 1 \<longrightarrow>
        delete_users param users =
          (users, \<lparr>sent = [], logged = [], thrown = Some (ReferenceError ''esle'')\<rparr>))"
  by (simp add: delete_users_unfold Let_def)

subsection \<open>Ids stay distinct\<close>

text \<open>
  C9. After any sequence of requests to the users server (lists, creates and deletes in
  any order) started from the two initial users, the ids of the stored users are
  pairwise distinct.
\<close>

theorem users_ids_stay_distinct:
  "distinct (map user_id (fst (users_run rs users_init)))"
proof -
  have "distinct (map user_id users_init)" by (simp add: users_init_def)
  then show ?thesis by (rule users_run_distinct)
qed

subsection \<open>What a create stores\<close>

lemma map_of_without_id: "k \<noteq> ''id'' \<Longrightarrow> map_of (filter (\<lambda>p. fst p \<noteq> ''id'') b) k = map_of b k"
  by (induction b) auto

lemma next_id_12: "set (map user_id users) = {1, 2} \<Longrightarrow> next_id users = 3"
proof -
  assume a: "set (map user_id users) = {1, 2}"
  then have "users \<noteq> []" by auto
  moreover have "Max {1, 2 :: int} = 2" by simp
  ultimately show ?thesis using a by (simp add: next_id_Max)
qed

text \<open>
  C6. A create appends to the store, and answers with, the entity made of the id the
  server computes and of the properties of the body other than \<open>id\<close>, each with the
  value the body gave it. The id depends on the store alone: a body that carries an
  \<open>id\<close> is treated as the same body without it. On a store whose ids are 1 and 2 the
  body \<open>{name: "Ada", email: "ada@x.com"}\<close> is answered with
  \<open>{id: 3, name: "Ada", email: "ada@x.com"}\<close>.
\<close>

theorem create_keeps_draft:
  "post_users b users =
     (users @ [\<lparr>user_id = next_id users, props = filter (\<lambda>p. fst p \<noteq> ''id'') b\<rparr>],
      \<lparr>sent = [\<lparr>status = 200,
                body = UserJson \<lparr>user_id = next_id users, props = filter (\<lambda>p. fst p \<noteq> ''id'') b\<rparr>\<rparr>],
       logged = [], thrown = None\<rparr>)
   \<and> (k \<noteq> ''id'' \<longrightarrow> map_of (filter (\<lambda>p. fst p \<noteq> ''id'') b) k = map_of b k)
   \<and> post_users ((''id'', v) # b) users = post_users b users
   \<and> (set (map user_id users) = {1, 2} \<longrightarrow>
        sent (snd (post_users [(''name'', JStr ''Ada''), (''email'', JStr ''ada@x.com'')] users)) =
          [\<lparr>status = 200,
            body = UserJson \<lparr>user_id = 3, props = [(''name'', JStr ''Ada''), (''email'', JStr ''ada@x.com'')]\<rparr>\<rparr>])"
  by (simp add: post_users_def Let_def silent_def json_def map_of_without_id next_id_12)

text \<open>C6, witness: the front end's body, with its placeholder \<open>id: 0\<close>, on the initial store.\<close>

theorem create_keeps_draft_witness:
  "set (map user_id users_init) = {1, 2}
   \<and> ''name'' \<noteq> ''id''
   \<and> post_users [(''id'', JNum 0), (''name'', JStr ''Ada''), (''email'', JStr ''ada@x.com'')] users_init =
       (users_init @ [\<lparr>user_id = 3, props = [(''name'', JStr ''Ada''), (''email'', JStr ''ada@x.com'')]\<rparr>],
        \<lparr>sent = [\<lparr>status = 200,
                  body = UserJson \<lparr>user_id = 3, props = [(''name'', JStr ''Ada''), (''email'', JStr ''ada@x.com'')]\<rparr>\<rparr>],
         logged = [], thrown = None\<rparr>)"
proof -
  have h: "set (map user_id users_init) = {1, 2}" by (simp add: users_init_def)
  have n: "next_id users_init = 3" using h by (rule next_id_12)
  note t = create_keeps_draft [of "[(''id'', JNum 0), (''name'', JStr ''Ada''), (''email'', JStr ''ada@x.com'')]"
      users_init "''name''" "JNum 0"]
  from t have "post_users [(''id'', JNum 0), (''name'', JStr ''Ada''), (''email'', JStr ''ada@x.com'')] users_init =
       (users_init @ [\<lparr>user_id = 3, props = [(''name'', JStr ''Ada''), (''email'', JStr ''ada@x.com'')]\<rparr>],
        \<lparr>sent = [\<lparr>status = 200,
                  body = UserJson \<lparr>user_id = 3, props = [(''name'', JStr ''Ada''), (''email'', JStr ''ada@x.com'')]\<rparr>\<rparr>],
         logged = [], thrown = None\<rparr>)"
    by (simp add: n)
  with h show ?thesis by simp
qed

subsection \<open>No input validation\<close>

text \<open>
  C5, as amended. A create body without a required field and a path id that is not
  numeric are not answered with 400. For every request body that parses to a JSON object
  whose property values are integers, strings, booleans or null, also one without
  \<open>name\<close> or \<open>email\<close>, \<open>POST /api/users\<close> stores the properties of the body other than
  \<open>id\<close>, unchanged, under the id the server assigns, and answers 200 with that entity.
  For every id string, numeric or not, \<open>PATCH /api/tasks/:id\<close> and
  \<open>DELETE /api/tasks/:id\<close> send exactly one response, whose status is 200 or 500, and
  \<open>DELETE /api/users/:id\<close> sends no response with status 400.
\<close>

theorem malformed_input_not_rejected:
  "post_users b users =
     (users @ [\<lparr>user_id = next_id users, props = filter (\<lambda>q. fst q \<noteq> ''id'') b\<rparr>],
      \<lparr>sent = [\<lparr>status = 200,
                body = UserJson \<lparr>user_id = next_id users, props = filter (\<lambda>q. fst q \<noteq> ''id'') b\<rparr>\<rparr>],
       logged = [], thrown = None\<rparr>)
   \<and> (map status (sent (snd (patch_task scope same_id p db))) = [200]
        \<or> map status (sent (snd (patch_task scope same_id p db))) = [500])
   \<and> (map status (sent (snd (delete_task scope same_id p db))) = [200]
        \<or> map status (sent (snd (delete_task scope same_id p db))) = [500])
   \<and> 400 \<notin> set (map status (sent (snd (delete_users p users))))"
proof -
  have a: "post_users b users =
     (users @ [\<lparr>user_id = next_id users, props = filter (\<lambda>q. fst q \<noteq> ''id'') b\<rparr>],
      \<lparr>sent = [\<lparr>status = 200,
                body = UserJson \<lparr>user_id = next_id users, props = filter (\<lambda>q. fst q \<noteq> ''id'') b\<rparr>\<rparr>],
       logged = [], thrown = None\<rparr>)"
    by (simp add: post_users_def Let_def silent_def json_def)
  have b: "map status (sent (snd (patch_task scope same_id p db))) = [200]
        \<or> map status (sent (snd (patch_task scope same_id p db))) = [500]"
    unfolding patch_task_def
    by (auto simp: caught_def answered_def json_def status_json_def split: prod.splits sum.splits)
  have c: "map status (sent (snd (delete_task scope same_id p db))) = [200]
        \<or> map status (sent (snd (delete_task scope same_id p db))) = [500]"
    unfolding delete_task_def
    by (auto simp: caught_def answered_def json_def status_json_def split: prod.splits sum.splits)
  have d: "400 \<notin> set (map status (sent (snd (delete_users p users))))"
    by (simp add: delete_users_unfold Let_def json_def)
  from a b c d show ?thesis by (intro conjI)
qed

text \<open>
  C5, counterexample to the claim as stated. A body without \<open>email\<close> posted to the
  initial store is stored as it is and answered with status 200, not 400; and the id
  \<open>abc\<close>, which \<open>parseInt\<close> reads as \<open>NaN\<close>, gets status 500 from
  \<open>PATCH /api/tasks/abc\<close> in the module as it is, not 400.
\<close>

theorem malformed_input_counterexample:
  "map_of [(''name'', JStr ''Ada'')] ''email'' = None
   \<and> sent (snd (post_users [(''name'', JStr ''Ada'')] users_init)) =
       [\<lparr>status = 200, body = UserJson \<lparr>user_id = 3, props = [(''name'', JStr ''Ada'')]\<rparr>\<rparr>]
   \<and> parseInt ''abc'' = None
   \<and> sent (snd (patch_task tasks_scope decimal_id ''abc'' \<lparr>tasks = [task5], faults = []\<rparr>)) =
       [\<lparr>status = 500, body = ErrorJson ''Errore toggle task''\<rparr>]"
proof -
  have a: "sent (snd (post_users [(''name'', JStr ''Ada'')] users_init)) =
       [\<lparr>status = 200, body = UserJson \<lparr>user_id = 3, props = [(''name'', JStr ''Ada'')]\<rparr>\<rparr>]"
    by (simp add: post_users_def Let_def silent_def json_def next_id_def Math_max_def users_init_def)
  have b: "parseInt ''abc'' = None"
    by (simp add: parseInt_def is_white_def is_digit_def digit_of_def)
  have c: "sent (snd (patch_task tasks_scope decimal_id ''abc'' \<lparr>tasks = [task5], faults = []\<rparr>)) =
       [\<lparr>status = 500, body = ErrorJson ''Errore toggle task''\<rparr>]"
    by (simp add: patch_task_unbound db_unbound caught_def status_json_def)
  from a b c show ?thesis by simp
qed

subsection \<open>The stray brace of \<open>removeUser\<close>\<close>

lemma Number_toString_no_slash:
  assumes "\<bar>n\<bar> < 10 ^ 21"
  shows "CHR ''/'' \<notin> set (Number_toString n @ ''}'')"
proof -
  have d: "c \<noteq> CHR ''/''" if "c \<in> set (digits_of m)" for c m
  proof -
    from that obtain k where "k < 10" "c = digit_char k" using digits_of_chars by blast
    then have "k \<in> {0, 1, 2, 3, 4, 5, 6, 7, 8, 9}" by auto
    with \<open>c = digit_char k\<close> show ?thesis unfolding digit_char_def by auto
  qed
  have e: "CHR ''/'' \<notin> set (digits_of m)" for m using d [of "CHR ''/''" m] by fast
  from assms have "nat (- n) < 10 ^ 21" "nat n < 10 ^ 21" by (simp_all add: nat_less_iff)
  then have "magnitude_text (nat (- n)) = digits_of (nat (- n))"
    "magnitude_text (nat n) = digits_of (nat n)"
    unfolding magnitude_text_def by (simp_all only: if_True)
  then show ?thesis using e by (simp add: Number_toString_def)
qed

lemma route_of_path:
  assumes "CHR ''/'' \<notin> set s" and "s \<noteq> []"
  shows "delete_by_url (apiUrl @ ''/'' @ s) users = Some (delete_users s users)"
proof -
  have a: "after_prefix origin (apiUrl @ ''/'' @ s) = Some (''/api/users/'' @ s)"
    by (simp add: after_prefix_def origin_def apiUrl_def)
  show ?thesis unfolding delete_by_url_def a
    using assms by (simp add: users_id_route_def after_prefix_def)
qed

lemma route_of_removeUser:
  assumes "\<bar>n\<bar> < 10 ^ 21"
  shows "delete_by_url (apiUrl @ ''/'' @ Number_toString n @ ''}'') users =
     Some (delete_users (Number_toString n @ ''}'') users)"
  using Number_toString_no_slash [OF assms] by (intro route_of_path) simp_all

text \<open>
  C10, as amended. For an id n that is a safe integer, \<open>removeUser\<close> requests the URL
  made of \<open>apiUrl\<close>, a slash, the decimal text of n and a closing brace. The route
  \<open>/api/users/:id\<close> matches its path with the parameter "n}", \<open>parseInt\<close> of that
  parameter is n, and the handler removes, and answers with, the first user whose id is
  n (or none when there is no such user).
\<close>

theorem removeUser_stray_brace:
  assumes "isSafeInteger n"
  shows "removeUser http n =
           catchError ''Errore nella cancellazione utente''
             (''Errore nella cancellazione dell'' @ apostrophe @ ''utente.'')
             (http_request
                (http \<lparr>verb = DELETE, url = apiUrl @ ''/'' @ Number_toString n @ ''}'', sent_body = None\<rparr>))
         \<and> delete_by_url (apiUrl @ ''/'' @ Number_toString n @ ''}'') users =
             Some (delete_users (Number_toString n @ ''}'') users)
         \<and> parseInt (Number_toString n @ ''}'') = Some n
         \<and> fst (delete_users (Number_toString n @ ''}'') users) =
             (if findIndex (\<lambda>user. user_id user = n) users = - 1 then users
              else splice1 (nat (findIndex (\<lambda>user. user_id user = n) users)) users)
         \<and> sent (snd (delete_users (Number_toString n @ ''}'') users)) =
             (if findIndex (\<lambda>user. user_id user = n) users = - 1 then []
              else [json (UserJson (users ! nat (findIndex (\<lambda>user. user_id user = n) users)))])"
proof -
  from assms have b: "\<bar>n\<bar> < 10 ^ 21" by (rule safe_below_exponent)
  show ?thesis
    by (simp add: removeUser_def route_of_removeUser [OF b] parseInt_Number_toString [OF b]
          delete_users_unfold Let_def del: append.simps)
qed

text \<open>C10, witness: removing user 2 from the initial store leaves the first user.\<close>

theorem removeUser_stray_brace_witness:
  "isSafeInteger 2
   \<and> apiUrl @ ''/'' @ Number_toString 2 @ ''}'' = ''http://localhost:8080/api/users/2}''
   \<and> parseInt ''2}'' = Some 2
   \<and> map_option fst (delete_by_url ''http://localhost:8080/api/users/2}'' users_init) =
       Some (take 1 users_init)"
proof -
  have h: "isSafeInteger 2" by (simp add: isSafeInteger_def)
  have s: "Number_toString 2 = ''2''"
    by (simp add: Number_toString_def magnitude_text_def digits_of.simps [of 2] digit_char_def)
  have u: "apiUrl @ ''/'' @ Number_toString 2 @ ''}'' = ''http://localhost:8080/api/users/2}''"
    by (simp add: s apiUrl_def)
  note t = removeUser_stray_brace [OF h, of "\<lambda>r. None" users_init]
  from t have p: "parseInt ''2}'' = Some 2" by (simp add: s)
  from t have r: "delete_by_url ''http://localhost:8080/api/users/2}'' users_init =
      Some (delete_users ''2}'' users_init)"
    by (simp add: u [symmetric] s del: append.simps) (simp add: s)
  from t have "fst (delete_users ''2}'' users_init) = take 1 users_init"
    by (simp add: s users_init_def splice1_def)
  with h u p r show ?thesis by simp
qed

lemma digits_of_times_ten:
  assumes "0 < n"
  shows "digits_of (n * 10) = digits_of n @ ''0''"
proof -
  from assms have "\<not> n * 10 < 10" by simp
  then have "digits_of (n * 10) = digits_of (n * 10 div 10) @ [digit_char (n * 10 mod 10)]"
    by (subst digits_of.simps) simp
  then show ?thesis by (simp add: digit_char_def)
qed

lemma digits_of_power_ten: "digits_of (10 ^ k) = CHR ''1'' # replicate k (CHR ''0'')"
proof (induction k)
  case 0
  show ?case by (subst digits_of.simps) (simp add: digit_char_def)
next
  case (Suc k)
  have "digits_of (10 ^ k * 10) = digits_of (10 ^ k) @ ''0''"
    by (rule digits_of_times_ten) simp
  with Suc show ?case by (simp add: mult.commute replicate_append_same)
qed

lemma exponent_text_power_ten: "exponent_text (10 ^ k) = ''1e+'' @ digits_of k"
proof -
  have "dropWhile (\<lambda>c. c = CHR ''0'') (replicate k (CHR ''0'') @ ''1'') = ''1''"
    by (induction k) simp_all
  then show ?thesis
    by (simp add: exponent_text_def digits_of_power_ten Let_def)
qed

lemma digits_of_21: "digits_of 21 = ''21''"
  by (simp add: digits_of.simps [of 21] digits_of.simps [of 2] digit_char_def)

text \<open>
  C10, counterexample to the claim as stated. The id \<open>10^21\<close> is a number
  \<open>removeUser\<close> can be given; its text is \<open>1e+21\<close>, so the URL ends in \<open>1e+21}\<close>,
  \<open>parseInt\<close> of the parameter is 1, and on the initial store the handler removes, and
  answers with, the user whose id is 1.
\<close>

theorem removeUser_large_id_counterexample:
  "apiUrl @ ''/'' @ Number_toString 1000000000000000000000 @ ''}'' =
     ''http://localhost:8080/api/users/1e+21}''
   \<and> parseInt ''1e+21}'' = Some 1
   \<and> delete_by_url ''http://localhost:8080/api/users/1e+21}'' users_init =
       Some (drop 1 users_init,
             \<lparr>sent = [\<lparr>status = 200,
                       body = UserJson \<lparr>user_id = 1,
                         props = [(''name'', JStr ''Mario Rossi''), (''email'', JStr ''mario@prova.com'')]\<rparr>\<rparr>],
              logged = [], thrown = Some (ReferenceError ''esle'')\<rparr>)"
proof -
  have "exponent_text 1000000000000000000000 = ''1e+21''"
    using exponent_text_power_ten [of 21] by (simp add: digits_of_21)
  then have s: "Number_toString 1000000000000000000000 = ''1e+21''"
    by (simp add: Number_toString_def magnitude_text_def)
  have u: "apiUrl @ ''/'' @ Number_toString 1000000000000000000000 @ ''}'' =
     ''http://localhost:8080/api/users/1e+21}''"
    by (simp add: s apiUrl_def)
  have p: "parseInt ''1e+21}'' = Some 1"
    by (simp add: parseInt_def is_white_def is_digit_def digit_of_def radix_value_def)
  have "delete_by_url (apiUrl @ ''/'' @ ''1e+21}'') users_init = Some (delete_users ''1e+21}'' users_init)"
    by (rule route_of_path) simp_all
  then have r: "delete_by_url ''http://localhost:8080/api/users/1e+21}'' users_init =
      Some (delete_users ''1e+21}'' users_init)"
    by (simp add: apiUrl_def)
  have e: "delete_users ''1e+21}'' users_init =
       (drop 1 users_init,
             \<lparr>sent = [\<lparr>status = 200,
                       body = UserJson \<lparr>user_id = 1,
                         props = [(''name'', JStr ''Mario Rossi''), (''email'', JStr ''mario@prova.com'')]\<rparr>\<rparr>],
              logged = [], thrown = Some (ReferenceError ''esle'')\<rparr>)"
    by (simp add: delete_users_unfold p Let_def users_init_def splice1_def json_def)
  from u p r e show ?thesis by simp
qed

section \<open>The gateway's errors\<close>

text \<open>
  C8. Whenever the exchange of \<open>getUsers\<close>, \<open>addUser\<close> or \<open>removeUser\<close> fails (no
  response, or a response whose status is outside 200..299), the raw error is written
  to the console once and the subscriber is notified of an error that is the
  operation's fixed \<open>Error\<close> message; the raw error is no part of the notification.
\<close>

theorem gateway_signals_domain_error:
  "(failure (http \<lparr>verb = GET, url = apiUrl, sent_body = None\<rparr>) \<longrightarrow>
      getUsers http =
        \<lparr>console = [(''Errore nel recupero utenti'', raw_of (http \<lparr>verb = GET, url = apiUrl, sent_body = None\<rparr>))],
         notification = Inl (Error ''Errore nel recupero degli utenti'')\<rparr>)
   \<and> (failure (http \<lparr>verb = POST, url = apiUrl, sent_body = Some user\<rparr>) \<longrightarrow>
      addUser http user =
        \<lparr>console = [(''Errore nell'' @ apostrophe @ ''aggiunta utente'',
                     raw_of (http \<lparr>verb = POST, url = apiUrl, sent_body = Some user\<rparr>))],
         notification = Inl (Error (''Errore nell'' @ apostrophe @ ''aggiunta dell'' @ apostrophe @ ''utente.''))\<rparr>)
   \<and> (failure (http \<lparr>verb = DELETE, url = apiUrl @ ''/'' @ Number_toString n @ ''}'', sent_body = None\<rparr>) \<longrightarrow>
      removeUser http n =
        \<lparr>console = [(''Errore nella cancellazione utente'',
                     raw_of (http \<lparr>verb = DELETE, url = apiUrl @ ''/'' @ Number_toString n @ ''}'', sent_body = None\<rparr>))],
         notification = Inl (Error (''Errore nella cancellazione dell'' @ apostrophe @ ''utente.''))\<rparr>)"
proof -
  have f: "failure r \<Longrightarrow> catchError line msg (http_request r) =
             \<lparr>console = [(line, raw_of r)], notification = Inl (Error msg)\<rparr>" for r line msg
    by (cases r) (simp_all add: failure_def http_request_def catchError_def)
  show ?thesis by (simp add: getUsers_def addUser_def removeUser_def f del: append.simps)
qed

text \<open>
  C8, witness: a server that answers 500 to \<open>getUsers\<close>, and a transport that gives no
  response to \<open>addUser\<close> and \<open>removeUser\<close>.
\<close>

theorem gateway_signals_domain_error_witness:
  "failure ((\<lambda>r. Some \<lparr>status = 500, body = ErrorJson ''Errore nel recupero tasks''\<rparr>)
             \<lparr>verb = GET, url = apiUrl, sent_body = None\<rparr>)
   \<and> getUsers (\<lambda>r. Some \<lparr>status = 500, body = ErrorJson ''Errore nel recupero tasks''\<rparr>) =
       \<lparr>console = [(''Errore nel recupero utenti'',
                    HttpErrorResponse 500 (Some (ErrorJson ''Errore nel recupero tasks'')))],
        notification = Inl (Error ''Errore nel recupero degli utenti'')\<rparr>
   \<and> failure ((\<lambda>r. None) \<lparr>verb = POST, url = apiUrl, sent_body = Some [(''name'', JStr ''Ada'')]\<rparr>)
   \<and> notification (addUser (\<lambda>r. None) [(''name'', JStr ''Ada'')]) =
       Inl (Error (''Errore nell'' @ apostrophe @ ''aggiunta dell'' @ apostrophe @ ''utente.''))
   \<and> failure ((\<lambda>r. None) \<lparr>verb = DELETE, url = apiUrl @ ''/'' @ Number_toString 99 @ ''}'', sent_body = None\<rparr>)
   \<and> removeUser (\<lambda>r. None) 99 =
       \<lparr>console = [(''Errore nella cancellazione utente'', HttpErrorResponse 0 None)],
        notification = Inl (Error (''Errore nella cancellazione dell'' @ apostrophe @ ''utente.''))\<rparr>"
proof -
  let ?h = "\<lambda>r::request. Some \<lparr>status = 500, body = ErrorJson ''Errore nel recupero tasks''\<rparr>"
  let ?n = "\<lambda>r::request. (None :: response option)"
  have f1: "failure (?h \<lparr>verb = GET, url = apiUrl, sent_body = None\<rparr>)" by (simp add: failure_def)
  have f2: "failure (?n x)" for x :: request by (simp add: failure_def)
  from gateway_signals_domain_error [of ?h] f1
  have a: "getUsers ?h =
       \<lparr>console = [(''Errore nel recupero utenti'',
                    HttpErrorResponse 500 (Some (ErrorJson ''Errore nel recupero tasks'')))],
        notification = Inl (Error ''Errore nel recupero degli utenti'')\<rparr>"
    by (simp add: raw_of_def)
  from gateway_signals_domain_error [of ?n "[(''name'', JStr ''Ada'')]" 99] f2
  have b: "notification (addUser ?n [(''name'', JStr ''Ada'')]) =
       Inl (Error (''Errore nell'' @ apostrophe @ ''aggiunta dell'' @ apostrophe @ ''utente.''))"
    and c: "removeUser ?n 99 =
       \<lparr>console = [(''Errore nella cancellazione utente'', HttpErrorResponse 0 None)],
        notification = Inl (Error (''Errore nella cancellazione dell'' @ apostrophe @ ''utente.''))\<rparr>"
    by (simp_all add: raw_of_def del: append.simps)
  from f1 f2 a b c show ?thesis by simp
qed

end
